theory Spec2Isabelle
  imports Main "HOL-Library.AList"
begin

section \<open>Strings\<close>

text \<open>
  Python strings are modelled as \<open>string\<close>. The three string methods the scripts call
  are \<open>str.startswith\<close>, \<open>str.endswith\<close> and \<open>str.lower\<close>. Lowering only touches the
  letters A to Z; no other character lowers to one of the characters of \<open>.exe\<close>, which is
  all the test on line 12 of build-test.py looks at.
\<close>

definition startswith :: "string \<Rightarrow> string \<Rightarrow> bool" where
  "startswith s pre = (take (length pre) s = pre)"

definition endswith :: "string \<Rightarrow> string \<Rightarrow> bool" where
  "endswith s suf = (length suf \<le> length s \<and> drop (length s - length suf) s = suf)"

definition lower_char :: "char \<Rightarrow> char" where
  "lower_char c =
     (case map_of (zip ''ABCDEFGHIJKLMNOPQRSTUVWXYZ'' ''abcdefghijklmnopqrstuvwxyz'') c of
        Some l \<Rightarrow> l
      | None \<Rightarrow> c)"

definition lower :: "string \<Rightarrow> string" where
  "lower s = map lower_char s"

section \<open>The platform: \<open>os.path.join\<close> and \<open>sys.platform\<close>\<close>

text \<open>
  \<open>get_executable_paths\<close> reads two things from its platform: the library routine
  \<open>os.path.join\<close> and the string \<open>sys.platform\<close>. Both are fields of a record the model
  takes as an argument. \<open>os.path.join(a, *p)\<close> is variadic: the rest arguments are a list.
\<close>

record platform =
  os_path_join :: "string \<Rightarrow> string list \<Rightarrow> string"
  sys_platform :: string

text \<open>
  On a non-Windows platform \<open>os.path\<close> is the library module \<open>posixpath\<close>, whose \<open>join\<close> is
  \<^verbatim>\<open>
  path = a
  for b in p:
      if b.startswith(sep): path = b
      elif not path or path.endswith(sep): path += b
      else: path += sep + b
  return path
  \<close>
  with \<open>sep = '/'\<close>.
\<close>

definition join_step :: "string \<Rightarrow> string \<Rightarrow> string" where
  "join_step path b =
     (if startswith b ''/'' then b
      else if path = [] \<or> endswith path ''/'' then path @ b
      else path @ ''/'' @ b)"

definition posixpath_join :: "string \<Rightarrow> string list \<Rightarrow> string" where
  "posixpath_join a p = foldl join_step a p"

definition posix :: platform where
  "posix = \<lparr>os_path_join = posixpath_join, sys_platform = ''linux''\<rparr>"

text \<open>
  On Windows \<open>os.path\<close> is the library module \<open>ntpath\<close>. Its separator \<open>sep\<close> is the
  backslash, \<open>altsep\<close> is the slash, \<open>seps\<close> holds both and \<open>colon\<close> is \<open>':'\<close>.
\<close>

definition nt_sep :: char where
  "nt_sep = CHR 0x5C"

definition nt_seps :: string where
  "nt_seps = [nt_sep, CHR ''/'']"

text \<open>
  \<open>str.upper\<close>, on the letters a to z, and \<open>str.find(c, start)\<close> for a single character:
  the first position at or after \<open>start\<close> that holds \<open>c\<close>, or nothing (Python's \<open>-1\<close>).
\<close>

definition upper_char :: "char \<Rightarrow> char" where
  "upper_char c =
     (case map_of (zip ''abcdefghijklmnopqrstuvwxyz'' ''ABCDEFGHIJKLMNOPQRSTUVWXYZ'') c of
        Some u \<Rightarrow> u
      | None \<Rightarrow> c)"

definition upper :: "string \<Rightarrow> string" where
  "upper s = map upper_char s"

fun index_of :: "char \<Rightarrow> string \<Rightarrow> nat option" where
  "index_of c [] = None"
| "index_of c (x # xs) = (if x = c then Some 0 else map_option Suc (index_of c xs))"

definition str_find :: "string \<Rightarrow> char \<Rightarrow> nat \<Rightarrow> nat option" where
  "str_find s c start = map_option (\<lambda>i. start + i) (index_of c (drop start s))"

text \<open>
  \<open>ntpath.splitdrive\<close> (CPython 3.11) splits a path into a drive and the rest. The drive
  is a UNC share (the path starts with two separators; after the eight characters of the
  extended prefix \<open>sep sep ? sep UNC sep\<close>, in any letter case, the search starts at
  position 8) or a letter with a colon:
  \<^verbatim>\<open>
  if len(p) >= 2:
      normp = p.replace(altsep, sep)
      if normp[0:2] == sep * 2:
          start = 8 if normp[:8].upper() == unc_prefix else 2
          index = normp.find(sep, start)
          if index == -1: return p, p[:0]
          index2 = normp.find(sep, index + 1)
          if index2 == -1: return p, p[:0]
          return p[:index2], p[index2:]
      if normp[1:2] == colon:
          return p[:2], p[2:]
  return p[:0], p
  \<close>
\<close>

definition ntpath_splitdrive :: "string \<Rightarrow> string \<times> string" where
  "ntpath_splitdrive p =
     (if 2 \<le> length p then
        (let normp = map (\<lambda>c. if c = CHR ''/'' then nt_sep else c) p in
         if take 2 normp = [nt_sep, nt_sep] then
           (let start = (if upper (take 8 normp)
                              = [nt_sep, nt_sep, CHR ''?'', nt_sep] @ ''UNC'' @ [nt_sep]
                         then 8 else 2)
            in case str_find normp nt_sep start of
                 None \<Rightarrow> (p, [])
               | Some index \<Rightarrow>
                   (case str_find normp nt_sep (index + 1) of
                      None \<Rightarrow> (p, [])
                    | Some index2 \<Rightarrow> (take index2 p, drop index2 p)))
         else if take 1 (drop 1 normp) = '':'' then (take 2 p, drop 2 p)
         else ([], p))
      else ([], p))"

text \<open>
  \<open>ntpath.join(path, *paths)\<close> keeps a drive and a path and treats each further
  component in turn:
  \<^verbatim>\<open>
  result_drive, result_path = splitdrive(path)
  for p in paths:
      p_drive, p_path = splitdrive(p)
      if p_path and p_path[0] in seps:
          if p_drive or not result_drive: result_drive = p_drive
          result_path = p_path
          continue
      elif p_drive and p_drive != result_drive:
          if p_drive.lower() != result_drive.lower():
              result_drive = p_drive
              result_path = p_path
              continue
          result_drive = p_drive
      if result_path and result_path[-1] not in seps:
          result_path = result_path + sep
      result_path = result_path + p_path
  if (result_path and result_path[0] not in seps and
      result_drive and result_drive[-1:] != colon):
      return result_drive + sep + result_path
  return result_drive + result_path
  \<close>
  \<open>nt_add_sep\<close> is the third \<open>if\<close> of the loop body, \<open>nt_join_step\<close> the loop body.
\<close>

definition nt_add_sep :: "string \<Rightarrow> string" where
  "nt_add_sep result_path =
     (if result_path \<noteq> [] \<and> last result_path \<notin> set nt_seps
      then result_path @ [nt_sep] else result_path)"

definition nt_join_step :: "string \<times> string \<Rightarrow> string \<Rightarrow> string \<times> string" where
  "nt_join_step r p =
     (case r of (result_drive, result_path) \<Rightarrow>
      case ntpath_splitdrive p of (p_drive, p_path) \<Rightarrow>
        if p_path \<noteq> [] \<and> hd p_path \<in> set nt_seps then
          (if p_drive \<noteq> [] \<or> result_drive = [] then p_drive else result_drive, p_path)
        else if p_drive \<noteq> [] \<and> p_drive \<noteq> result_drive then
          (if lower p_drive \<noteq> lower result_drive then (p_drive, p_path)
           else (p_drive, nt_add_sep result_path @ p_path))
        else (result_drive, nt_add_sep result_path @ p_path))"

definition ntpath_join :: "string \<Rightarrow> string list \<Rightarrow> string" where
  "ntpath_join path paths =
     (case foldl nt_join_step (ntpath_splitdrive path) paths of (result_drive, result_path) \<Rightarrow>
        if result_path \<noteq> [] \<and> hd result_path \<notin> set nt_seps
           \<and> result_drive \<noteq> [] \<and> last result_drive \<noteq> CHR '':''
        then result_drive @ [nt_sep] @ result_path
        else result_drive @ result_path)"

definition win32 :: platform where
  "win32 = \<lparr>os_path_join = ntpath_join, sys_platform = ''win32''\<rparr>"

section \<open>Ordered dictionaries\<close>

text \<open>
  A Python dict keeps its keys in insertion order; storing under a key that is already
  present keeps the key where it is. That is \<open>AList.update\<close> on an association list.
  \<open>dict.fromkeys(xs)\<close> stores \<open>None\<close> under each element of \<open>xs\<close> in turn, and \<open>list(d)\<close>
  lists the keys.
\<close>

definition dict_fromkeys :: "'k list \<Rightarrow> ('k \<times> unit) list" where
  "dict_fromkeys ks = foldl (\<lambda>d k. AList.update k () d) [] ks"

definition list_of_dict :: "('k \<times> 'v) list \<Rightarrow> 'k list" where
  "list_of_dict d = map fst d"

text \<open>
  The spec's wording of the same step: iterate the sequence once, track a membership set,
  emit only first-seen entries.
\<close>

fun first_seen :: "'a set \<Rightarrow> 'a list \<Rightarrow> 'a list" where
  "first_seen seen [] = []"
| "first_seen seen (x # xs) =
     (if x \<in> seen then first_seen seen xs else x # first_seen (insert x seen) xs)"

section \<open>build-test.py: \<open>get_executable_paths\<close>\<close>

definition common_configs :: "string list" where
  "common_configs = [''Debug'', ''Release'', ''RelWithDebInfo'', ''MinSizeRel'']"

text \<open>Lines 7 to 9: the list before deduplication.\<close>

definition initial_paths :: "platform \<Rightarrow> string \<Rightarrow> string \<Rightarrow> string \<Rightarrow> string list" where
  "initial_paths os build_dir target_name config =
     [os_path_join os build_dir [config, target_name], os_path_join os build_dir [target_name]]
     @ map (\<lambda>conf. os_path_join os build_dir [conf, target_name]) common_configs"

text \<open>Line 10: the list after deduplication, before the platform suffix.\<close>

definition candidate_paths :: "platform \<Rightarrow> string \<Rightarrow> string \<Rightarrow> string \<Rightarrow> string list" where
  "candidate_paths os build_dir target_name config =
     list_of_dict (dict_fromkeys (initial_paths os build_dir target_name config))"

text \<open>Line 12, the expression applied to each path.\<close>

definition add_exe :: "string \<Rightarrow> string" where
  "add_exe p = (if \<not> endswith (lower p) ''.exe'' then p @ ''.exe'' else p)"

definition get_executable_paths :: "platform \<Rightarrow> string \<Rightarrow> string \<Rightarrow> string \<Rightarrow> string list" where
  "get_executable_paths os build_dir target_name config =
     (let paths = candidate_paths os build_dir target_name config
      in if sys_platform os = ''win32'' then map add_exe paths else paths)"

section \<open>External processes\<close>

text \<open>
  Both scripts call \<open>subprocess.run(cmd, check=True, capture_output=True)\<close>. The call
  either completes (exit status 0, with the captured standard output), or raises
  \<open>CalledProcessError\<close> (the command exited non-zero), or raises \<open>FileNotFoundError\<close>
  (the executable could not be started). What a command does is decided by the
  environment, a function of the history so far, the command and its working directory.
  Every effect is appended to the history, a command together with its outcome.
  Printing is left out of the model: no claim is about the text printed.
\<close>

datatype run_outcome = Completed string | NonZeroExit | NotFound

datatype event =
    Rmtree string
  | Makedirs string
  | Run "string list" "string option" run_outcome

type_synonym environment = "event list \<Rightarrow> string list \<Rightarrow> string option \<Rightarrow> run_outcome"

datatype py_exception = CalledProcessError | FileNotFoundError | SystemExit nat

fun succeeded :: "run_outcome \<Rightarrow> bool" where
  "succeeded (Completed out) = True"
| "succeeded NonZeroExit = False"
| "succeeded NotFound = False"

definition subprocess_run ::
  "environment \<Rightarrow> string list \<Rightarrow> string option \<Rightarrow> event list
     \<Rightarrow> (py_exception + string) \<times> event list" where
  "subprocess_run env cmd cwd trace =
     (let outcome = env trace cmd cwd; trace' = trace @ [Run cmd cwd outcome]
      in case outcome of
           Completed out \<Rightarrow> (Inr out, trace')
         | NonZeroExit \<Rightarrow> (Inl CalledProcessError, trace')
         | NotFound \<Rightarrow> (Inl FileNotFoundError, trace'))"

text \<open>
  The exit status of the interpreter: 0 when the script runs to its end, the argument of
  \<open>sys.exit\<close>, and 1 after an exception nobody caught.
\<close>

fun exit_status :: "py_exception + 'a \<Rightarrow> nat" where
  "exit_status (Inr v) = 0"
| "exit_status (Inl (SystemExit n)) = n"
| "exit_status (Inl CalledProcessError) = 1"
| "exit_status (Inl FileNotFoundError) = 1"

section \<open>build-test.py: \<open>run_cmake_build_and_execute\<close>\<close>

text \<open>
  Line 43. \<open>os.path.exists\<close> is a predicate on paths; \<open>next\<close> returns the first element the
  generator yields, or its second argument when there is none.
\<close>

definition exec_path ::
  "platform \<Rightarrow> (string \<Rightarrow> bool) \<Rightarrow> string \<Rightarrow> string \<Rightarrow> string \<Rightarrow> string" where
  "exec_path os exists build_dir target_name config =
     (let possible_execs = get_executable_paths os build_dir target_name config
      in case find exists possible_execs of
           Some p \<Rightarrow> p
         | None \<Rightarrow>
             (case possible_execs of
                p0 # rest \<Rightarrow> p0
              | [] \<Rightarrow> os_path_join os build_dir [config, target_name]))"

definition cmake_cmd :: "string option \<Rightarrow> string list" where
  "cmake_cmd generator =
     (case generator of
        None \<Rightarrow> [''cmake'', ''.'']
      | Some g \<Rightarrow> if g \<noteq> [] then [''cmake'', ''.'', ''-G'', g] else [''cmake'', ''.''])"

definition build_cmd :: "string \<Rightarrow> string \<Rightarrow> string \<Rightarrow> string list" where
  "build_cmd build_dir target_name config =
     [''cmake'', ''--build'', build_dir, ''--config'', config, ''--target'', target_name]"

text \<open>Lines 45 to 54: run the executable; both failures end in \<open>sys.exit(1)\<close>.\<close>

definition execute_step ::
  "environment \<Rightarrow> string \<Rightarrow> event list \<Rightarrow> (py_exception + unit) \<times> event list" where
  "execute_step env path trace =
     (case subprocess_run env [path] None trace of
        (Inr out, tr) \<Rightarrow> (Inr (), tr)
      | (Inl FileNotFoundError, tr) \<Rightarrow> (Inl (SystemExit 1), tr)
      | (Inl CalledProcessError, tr) \<Rightarrow> (Inl (SystemExit 1), tr)
      | (Inl (SystemExit n), tr) \<Rightarrow> (Inl (SystemExit n), tr))"

definition run_cmake_build_and_execute ::
  "platform \<Rightarrow> (string \<Rightarrow> bool) \<Rightarrow> environment \<Rightarrow> string \<Rightarrow> string \<Rightarrow> string option
     \<Rightarrow> string \<Rightarrow> bool \<Rightarrow> (py_exception + unit) \<times> event list" where
  "run_cmake_build_and_execute os exists env build_dir target_name generator config clean_build =
     (let tr1 = (if clean_build then [Rmtree build_dir] else []);
          tr2 = tr1 @ [Makedirs build_dir]
      in case subprocess_run env (cmake_cmd generator) (Some build_dir) tr2 of
           (Inl CalledProcessError, tr) \<Rightarrow> (Inl (SystemExit 1), tr)
         | (Inl FileNotFoundError, tr) \<Rightarrow> (Inl FileNotFoundError, tr)
         | (Inl (SystemExit n), tr) \<Rightarrow> (Inl (SystemExit n), tr)
         | (Inr out, tr3) \<Rightarrow>
             (case subprocess_run env (build_cmd build_dir target_name config) None tr3 of
                (Inl CalledProcessError, tr) \<Rightarrow> (Inl (SystemExit 1), tr)
              | (Inl FileNotFoundError, tr) \<Rightarrow> (Inl FileNotFoundError, tr)
              | (Inl (SystemExit n), tr) \<Rightarrow> (Inl (SystemExit n), tr)
              | (Inr out', tr4) \<Rightarrow>
                  execute_step env (exec_path os exists build_dir target_name config) tr4))"

section \<open>release.py\<close>

text \<open>
  \<open>str.strip()\<close> removes leading and trailing whitespace; among the ASCII characters
  these are tab, line feed, vertical tab, form feed, carriage return, the four
  separators 0x1C to 0x1F and the space.
\<close>

definition is_space :: "char \<Rightarrow> bool" where
  "is_space c = (c \<in> set [CHR 0x09, CHR 0x0A, CHR 0x0B, CHR 0x0C, CHR 0x0D,
                           CHR 0x1C, CHR 0x1D, CHR 0x1E, CHR 0x1F, CHR '' ''])"

definition strip :: "string \<Rightarrow> string" where
  "strip s = rev (dropWhile is_space (rev (dropWhile is_space s)))"

definition rev_parse_cmd :: "string list" where
  "rev_parse_cmd = [''git'', ''rev-parse'', ''--abbrev-ref'', ''HEAD'']"

text \<open>Lines 12 to 20. \<open>None\<close> is returned when the command exits non-zero.\<close>

definition get_current_branch ::
  "environment \<Rightarrow> event list \<Rightarrow> (py_exception + string option) \<times> event list" where
  "get_current_branch env trace =
     (case subprocess_run env rev_parse_cmd None trace of
        (Inr out, tr) \<Rightarrow> (Inr (Some (strip out)), tr)
      | (Inl CalledProcessError, tr) \<Rightarrow> (Inr None, tr)
      | (Inl FileNotFoundError, tr) \<Rightarrow> (Inl FileNotFoundError, tr)
      | (Inl (SystemExit n), tr) \<Rightarrow> (Inl (SystemExit n), tr))"

text \<open>Lines 24 to 26: \<open>not message\<close> holds for \<open>None\<close> and for the empty string.\<close>

definition tag_message :: "string \<Rightarrow> string option \<Rightarrow> string" where
  "tag_message tag_name message =
     (case message of
        None \<Rightarrow> ''Release '' @ tag_name
      | Some m \<Rightarrow> if m = [] then ''Release '' @ tag_name else m)"

text \<open>Lines 29 to 35, inside the \<open>try\<close>: the optional push of the branch's commits.\<close>

definition push_commits_step ::
  "environment \<Rightarrow> bool \<Rightarrow> event list \<Rightarrow> (py_exception + unit) \<times> event list" where
  "push_commits_step env push_commits trace =
     (if push_commits then
        (case get_current_branch env trace of
           (Inl e, tr) \<Rightarrow> (Inl e, tr)
         | (Inr None, tr) \<Rightarrow> (Inr (), tr)
         | (Inr (Some current_branch), tr) \<Rightarrow>
             if current_branch \<noteq> [] then
               (case subprocess_run env [''git'', ''push'', ''origin'', current_branch] None tr of
                  (Inl e, tr') \<Rightarrow> (Inl e, tr')
                | (Inr out, tr') \<Rightarrow> (Inr (), tr'))
             else (Inr (), tr))
      else (Inr (), trace))"

text \<open>Lines 28 to 40: the body of the \<open>try\<close>.\<close>

definition create_tag_body ::
  "environment \<Rightarrow> string \<Rightarrow> string \<Rightarrow> bool \<Rightarrow> event list
     \<Rightarrow> (py_exception + bool) \<times> event list" where
  "create_tag_body env tag_name message push_commits trace =
     (case push_commits_step env push_commits trace of
        (Inl e, tr) \<Rightarrow> (Inl e, tr)
      | (Inr u, tr1) \<Rightarrow>
          (case subprocess_run env [''git'', ''tag'', ''-a'', tag_name, ''-m'', message] None tr1 of
             (Inl e, tr) \<Rightarrow> (Inl e, tr)
           | (Inr out, tr2) \<Rightarrow>
               (case subprocess_run env [''git'', ''push'', ''origin'', tag_name] None tr2 of
                  (Inl e, tr) \<Rightarrow> (Inl e, tr)
                | (Inr out', tr3) \<Rightarrow> (Inr True, tr3))))"

text \<open>The handler \<open>except subprocess.CalledProcessError\<close> of both operations.\<close>

definition except_called_process_error ::
  "(py_exception + bool) \<times> event list \<Rightarrow> (py_exception + bool) \<times> event list" where
  "except_called_process_error r =
     (case r of
        (Inl CalledProcessError, tr) \<Rightarrow> (Inr False, tr)
      | (Inl FileNotFoundError, tr) \<Rightarrow> (Inl FileNotFoundError, tr)
      | (Inl (SystemExit n), tr) \<Rightarrow> (Inl (SystemExit n), tr)
      | (Inr v, tr) \<Rightarrow> (Inr v, tr))"

definition create_tag ::
  "environment \<Rightarrow> string \<Rightarrow> string option \<Rightarrow> bool \<Rightarrow> event list
     \<Rightarrow> (py_exception + bool) \<times> event list" where
  "create_tag env tag_name message push_commits trace =
     except_called_process_error
       (create_tag_body env tag_name (tag_message tag_name message) push_commits trace)"

definition delete_tag_body ::
  "environment \<Rightarrow> string \<Rightarrow> event list \<Rightarrow> (py_exception + bool) \<times> event list" where
  "delete_tag_body env tag_name trace =
     (case subprocess_run env [''git'', ''push'', ''--delete'', ''origin'', tag_name] None trace of
        (Inl e, tr) \<Rightarrow> (Inl e, tr)
      | (Inr out, tr1) \<Rightarrow>
          (case subprocess_run env [''git'', ''tag'', ''--delete'', tag_name] None tr1 of
             (Inl e, tr) \<Rightarrow> (Inl e, tr)
           | (Inr out', tr2) \<Rightarrow> (Inr True, tr2)))"

definition delete_tag ::
  "environment \<Rightarrow> string \<Rightarrow> event list \<Rightarrow> (py_exception + bool) \<times> event list" where
  "delete_tag env tag_name trace = except_called_process_error (delete_tag_body env tag_name trace)"

text \<open>The namespace \<open>parse_args\<close> returns.\<close>

record args =
  action :: string
  tag_name :: string
  message :: "string option"
  push_commits :: bool

text \<open>Lines 74 to 82 of \<open>main\<close>, after the arguments are parsed.\<close>

definition main :: "environment \<Rightarrow> args \<Rightarrow> (py_exception + unit) \<times> event list" where
  "main env a =
     (case (if action a = ''create'' then create_tag env (tag_name a) (message a) (push_commits a) []
            else if action a = ''delete'' then delete_tag env (tag_name a) []
            else (Inr False, [])) of
        (Inl e, tr) \<Rightarrow> (Inl e, tr)
      | (Inr success, tr) \<Rightarrow> if \<not> success then (Inl (SystemExit 1), tr) else (Inr (), tr))"

text \<open>
  The script as a whole: lines 8 to 10 stop with status 1 when \<open>shutil.which("git")\<close>
  finds nothing.
\<close>

definition release_script :: "bool \<Rightarrow> environment \<Rightarrow> args \<Rightarrow> (py_exception + unit) \<times> event list" where
  "release_script git_found env a = (if \<not> git_found then (Inl (SystemExit 1), []) else main env a)"

section \<open>Deduplication keeps first occurrences\<close>

lemma update_fold_keys:
  "map fst (foldl (\<lambda>d k. AList.update k () d) d ks) = map fst d @ first_seen (set (map fst d)) ks"
  by (induction ks arbitrary: d) (simp_all add: update_keys dom_update insert_absorb)

lemma fromkeys_first_seen: "list_of_dict (dict_fromkeys ks) = first_seen {} ks"
  by (simp add: list_of_dict_def dict_fromkeys_def update_fold_keys)

lemma first_seen_distinct: "distinct (first_seen S xs) \<and> set (first_seen S xs) = set xs - S"
  by (induction xs arbitrary: S) auto

lemma candidate_paths_first_seen:
  "candidate_paths os b t c = first_seen {} (initial_paths os b t c)"
  by (simp add: candidate_paths_def fromkeys_first_seen)

lemma first_seen_index:
  "first_seen S xs = map (\<lambda>i. xs ! i) (filter (\<lambda>i. xs ! i \<notin> S \<and> xs ! i \<notin> set (take i xs)) [0..<length xs])"
proof (induction xs arbitrary: S)
  case Nil show ?case by simp
next
  case (Cons x xs)
  have upt: "[0..<length (x # xs)] = 0 # map Suc [0..<length xs]"
    by (simp add: upt_conv_Cons map_Suc_upt del: upt_Suc)
  have same: "x \<in> S \<Longrightarrow>
      filter (\<lambda>i. xs ! i \<noteq> x \<and> xs ! i \<notin> S \<and> xs ! i \<notin> set (take i xs)) [0..<length xs]
      = filter (\<lambda>i. xs ! i \<notin> S \<and> xs ! i \<notin> set (take i xs)) [0..<length xs]"
    by (rule filter_cong) auto
  show ?case
    unfolding upt by (simp add: Cons.IH filter_map comp_def conj_ac same)
qed

section \<open>Shape of the paths \<open>posixpath.join\<close> builds\<close>

lemma join_step_rel: "\<not> startswith c ''/'' \<Longrightarrow> join_step b c = join_step b [] @ c"
  by (simp add: join_step_def startswith_def)

lemma sep_free_start: "CHR ''/'' \<notin> set t \<Longrightarrow> \<not> startswith t ''/''"
  by (cases t) (auto simp: startswith_def)

lemma endswith_sep_last: "endswith s ''/'' \<Longrightarrow> s \<noteq> [] \<and> last s = CHR ''/''"
proof -
  assume e: "endswith s ''/''"
  then have len: "1 \<le> length s" and d: "drop (length s - 1) s = ''/''"
    by (simp_all add: endswith_def)
  from len have ne: "s \<noteq> []" by auto
  then have "s = butlast s @ [last s]" by simp
  then have "drop (length s - 1) s = [last s]"
    by (metis append_eq_conv_conj length_butlast)
  with d ne show ?thesis by simp
qed

lemma join_step_after:
  assumes "c \<noteq> []" "CHR ''/'' \<notin> set c" "\<not> startswith t ''/''"
  shows "join_step (p @ c) t = p @ c @ ''/'' @ t"
proof -
  have "last (p @ c) \<noteq> CHR ''/''"
    using assms(1,2) by (metis last_in_set last_appendR)
  then have "\<not> endswith (p @ c) ''/''" using endswith_sep_last by blast
  then show ?thesis using assms by (simp add: join_step_def)
qed

lemma posix_join3:
  assumes "c \<noteq> []" "CHR ''/'' \<notin> set c" "\<not> startswith t ''/''"
  shows "posixpath_join b [c, t] = join_step b [] @ c @ ''/'' @ t"
  using assms by (simp add: posixpath_join_def join_step_rel[of c b] sep_free_start join_step_after)

lemma posix_join2: "\<not> startswith t ''/'' \<Longrightarrow> posixpath_join b [t] = join_step b [] @ t"
  by (simp add: posixpath_join_def join_step_rel[of t b])

lemma posix_initial_paths:
  assumes "c \<noteq> []" "CHR ''/'' \<notin> set c" "\<not> startswith t ''/''"
  shows "initial_paths posix b t c =
    [join_step b [] @ c @ ''/'' @ t, join_step b [] @ t,
     join_step b [] @ ''Debug/'' @ t, join_step b [] @ ''Release/'' @ t,
     join_step b [] @ ''RelWithDebInfo/'' @ t, join_step b [] @ ''MinSizeRel/'' @ t]"
  using assms by (simp add: initial_paths_def posix_def common_configs_def posix_join3 posix_join2)

lemma slash_app_neq: "c @ CHR ''/'' # t \<noteq> t"
proof
  assume "c @ CHR ''/'' # t = t"
  then have "length (c @ CHR ''/'' # t) = length t" by simp
  then show False by simp
qed

lemma label_eq: "(c @ CHR ''/'' # t = l @ CHR ''/'' # t) = (c = l)"
  by simp

lemma posix_candidates_length:
  assumes "c \<noteq> []" "CHR ''/'' \<notin> set c" "\<not> startswith t ''/''"
  shows "length (candidate_paths posix b t c) = (if c \<in> set common_configs then 5 else 6)"
  using assms slash_app_neq[of _ t]
  by (simp add: candidate_paths_first_seen posix_initial_paths common_configs_def)

section \<open>Shape of the paths \<open>ntpath.join\<close> builds\<close>

lemma splitdrive_plain:
  assumes "CHR ''/'' \<notin> set x" "nt_sep \<notin> set x" "take 1 (drop 1 x) \<noteq> '':''"
  shows "ntpath_splitdrive x = ([], x)"
proof -
  have n: "map (\<lambda>c. if c = CHR ''/'' then nt_sep else c) x = x"
    using assms(1) by (induction x) auto
  have "take 2 x \<noteq> [nt_sep, nt_sep]"
    using assms(2) by (metis in_set_takeD list.set_intros(1))
  then show ?thesis using assms(3) by (simp add: ntpath_splitdrive_def n)
qed

lemma nt_join_step_plain:
  assumes "CHR ''/'' \<notin> set x" "nt_sep \<notin> set x" "take 1 (drop 1 x) \<noteq> '':''"
  shows "nt_join_step (d, r) x = (d, nt_add_sep r @ x)"
proof -
  have "x \<noteq> [] \<Longrightarrow> hd x \<notin> set nt_seps"
    using assms(1,2) by (cases x) (auto simp: nt_seps_def)
  then show ?thesis using assms by (auto simp: nt_join_step_def splitdrive_plain)
qed

lemma nt_add_sep_after:
  assumes "c \<noteq> []" "CHR ''/'' \<notin> set c" "nt_sep \<notin> set c"
  shows "nt_add_sep (p @ c) = p @ c @ [nt_sep]"
proof -
  have "last (p @ c) \<notin> set nt_seps"
    using assms by (metis last_in_set last_appendR nt_seps_def set_ConsD list.set(1) empty_iff)
  then show ?thesis using assms(1) by (simp add: nt_add_sep_def)
qed

lemma nt_fold3:
  assumes "c \<noteq> []" "CHR ''/'' \<notin> set c" "nt_sep \<notin> set c" "take 1 (drop 1 c) \<noteq> '':''"
    "CHR ''/'' \<notin> set t" "nt_sep \<notin> set t" "take 1 (drop 1 t) \<noteq> '':''"
  shows "foldl nt_join_step (d, r) [c, t] = (d, nt_add_sep r @ c @ nt_sep # t)"
  using assms by (simp add: nt_join_step_plain nt_add_sep_after)

lemma nt_fold2:
  assumes "CHR ''/'' \<notin> set t" "nt_sep \<notin> set t" "take 1 (drop 1 t) \<noteq> '':''"
  shows "foldl nt_join_step (d, r) [t] = (d, nt_add_sep r @ t)"
  using assms by (simp add: nt_join_step_plain)

lemma hd_add_sep: "y \<noteq> [] \<Longrightarrow> hd (nt_add_sep r @ y) = (if r = [] then hd y else hd r)"
  by (cases r) (simp_all add: nt_add_sep_def)

lemma plain_hd: "x \<noteq> [] \<Longrightarrow> CHR ''/'' \<notin> set x \<Longrightarrow> nt_sep \<notin> set x \<Longrightarrow> hd x \<notin> set nt_seps"
  by (cases x) (auto simp: nt_seps_def)

lemma nt_join_shape:
  "\<exists>P. \<forall>c t. c \<noteq> [] \<and> CHR ''/'' \<notin> set c \<and> nt_sep \<notin> set c \<and> take 1 (drop 1 c) \<noteq> '':''
         \<and> t \<noteq> [] \<and> CHR ''/'' \<notin> set t \<and> nt_sep \<notin> set t \<and> take 1 (drop 1 t) \<noteq> '':''
     \<longrightarrow> ntpath_join b [c, t] = P @ c @ nt_sep # t \<and> ntpath_join b [t] = P @ t"
proof -
  obtain d r where s: "ntpath_splitdrive b = (d, r)" by fastforce
  define P where "P = (if (r = [] \<or> hd r \<notin> set nt_seps) \<and> d \<noteq> [] \<and> last d \<noteq> CHR '':''
                       then d @ [nt_sep] else d) @ nt_add_sep r"
  have "ntpath_join b [c, t] = P @ c @ nt_sep # t \<and> ntpath_join b [t] = P @ t"
    if "c \<noteq> []" "CHR ''/'' \<notin> set c" "nt_sep \<notin> set c" "take 1 (drop 1 c) \<noteq> '':''"
       "t \<noteq> []" "CHR ''/'' \<notin> set t" "nt_sep \<notin> set t" "take 1 (drop 1 t) \<noteq> '':''" for c t
  proof -
    have h3: "hd (nt_add_sep r @ c @ nt_sep # t) = (if r = [] then hd c else hd r)"
      using hd_add_sep[of "c @ nt_sep # t" r] that(1) by simp
    have h2: "hd (nt_add_sep r @ t) = (if r = [] then hd t else hd r)"
      using hd_add_sep[of t r] that(5) by simp
    have hc: "hd c \<notin> set nt_seps" and ht: "hd t \<notin> set nt_seps"
      using that by (simp_all add: plain_hd)
    have a: "ntpath_join b [c, t] = P @ c @ nt_sep # t"
      unfolding ntpath_join_def s nt_fold3[OF that(1,2,3,4,6,7,8)] P_def
      using hc that(1) by (simp add: h3 del: foldl.simps)
    have b: "ntpath_join b [t] = P @ t"
      unfolding ntpath_join_def s nt_fold2[OF that(6,7,8)] P_def
      using ht that(5) by (simp add: h2 del: foldl.simps)
    from a b show ?thesis ..
  qed
  then show ?thesis by blast
qed

lemma index_of_Some: "index_of c s = Some i \<Longrightarrow> i < length s \<and> s ! i = c"
  by (induction s arbitrary: i) (auto split: if_splits)

lemma str_find_Some: "str_find s c k = Some i \<Longrightarrow> i < length s \<and> s ! i = c"
  by (auto simp: str_find_def dest!: index_of_Some)

lemma splitdrive_append: "ntpath_splitdrive p = (d, r) \<Longrightarrow> d @ r = p"
  by (auto simp: ntpath_splitdrive_def Let_def split: if_splits option.splits)

lemma splitdrive_unc:
  assumes "ntpath_splitdrive p = (d, r)" "d \<noteq> []" "last d \<noteq> CHR '':''"
  shows "r = [] \<or> hd r \<in> set nt_seps"
proof -
  let ?n = "map (\<lambda>c. if c = CHR ''/'' then nt_sep else c) p"
  have colon: "take 1 (drop 1 ?n) = '':'' \<Longrightarrow> last (take 2 p) = CHR '':''"
  proof -
    assume a: "take 1 (drop 1 ?n) = '':''"
    then obtain x y ys where p: "p = x # y # ys" by (cases p; cases "tl p") auto
    with a show ?thesis by (auto simp: nt_sep_def split: if_splits)
  qed
  have idx: "str_find ?n nt_sep k = Some i \<Longrightarrow> drop i p \<noteq> [] \<and> hd (drop i p) \<in> set nt_seps" for k i
  proof -
    assume "str_find ?n nt_sep k = Some i"
    then have i: "i < length p" and n: "?n ! i = nt_sep" using str_find_Some by fastforce+
    from i n have "p ! i \<in> set nt_seps" by (auto simp: nt_seps_def split: if_splits)
    with i show ?thesis by (simp add: hd_drop_conv_nth)
  qed
  show ?thesis using assms colon idx
    by (auto simp: ntpath_splitdrive_def Let_def split: if_splits option.splits)
qed

lemma nt_join_literal:
  assumes "snd (ntpath_splitdrive b) \<noteq> []" "last b \<notin> set nt_seps"
    "c \<noteq> []" "CHR ''/'' \<notin> set c" "nt_sep \<notin> set c" "take 1 (drop 1 c) \<noteq> '':''"
    "CHR ''/'' \<notin> set t" "nt_sep \<notin> set t" "take 1 (drop 1 t) \<noteq> '':''"
  shows "ntpath_join b [c, t] = b @ nt_sep # c @ nt_sep # t \<and> ntpath_join b [t] = b @ nt_sep # t"
proof -
  obtain d r where s: "ntpath_splitdrive b = (d, r)" by fastforce
  have r: "r \<noteq> []" using assms(1) s by simp
  have b: "d @ r = b" using s by (rule splitdrive_append)
  have "last r = last b" using b r by (metis last_appendR)
  then have a: "nt_add_sep r = r @ [nt_sep]" using r assms(2) by (simp add: nt_add_sep_def)
  have u: "\<not> (hd r \<notin> set nt_seps \<and> d \<noteq> [] \<and> last d \<noteq> CHR '':'')"
    using splitdrive_unc[OF s] r by blast
  have h: "hd (r @ y) = hd r" for y using r by simp
  have 1: "ntpath_join b [c, t] = b @ nt_sep # c @ nt_sep # t"
    unfolding ntpath_join_def s nt_fold3[OF assms(3,4,5,6,7,8,9)] a
    using u r b[symmetric] by (auto simp: h simp del: foldl.simps)
  have 2: "ntpath_join b [t] = b @ nt_sep # t"
    unfolding ntpath_join_def s nt_fold2[OF assms(7,8,9)] a
    using u r b[symmetric] by (auto simp: h simp del: foldl.simps)
  from 1 2 show ?thesis ..
qed

section \<open>Counting the candidates\<close>

lemma sep_app_neq: "c @ s # t \<noteq> t"
proof
  assume "c @ s # t = t"
  then have "length (c @ s # t) = length t" by simp
  then show False by simp
qed

lemma shape_length:
  assumes "initial_paths os b t c =
    [P @ c @ s # t, P @ t, P @ ''Debug'' @ s # t, P @ ''Release'' @ s # t,
     P @ ''RelWithDebInfo'' @ s # t, P @ ''MinSizeRel'' @ s # t]"
  shows "length (candidate_paths os b t c) = (if c \<in> set common_configs then 5 else 6)"
  using sep_app_neq[of _ s t]
  by (simp add: candidate_paths_first_seen assms common_configs_def)

lemma posix_length:
  assumes "os_path_join os = posixpath_join" "c \<noteq> []" "CHR ''/'' \<notin> set c" "CHR ''/'' \<notin> set t"
  shows "length (candidate_paths os b t c) = (if c \<in> set common_configs then 5 else 6)"
proof -
  have "initial_paths os b t c = initial_paths posix b t c"
    using assms(1) by (simp add: initial_paths_def posix_def)
  then have "initial_paths os b t c =
    [join_step b [] @ c @ CHR ''/'' # t, join_step b [] @ t,
     join_step b [] @ ''Debug'' @ CHR ''/'' # t, join_step b [] @ ''Release'' @ CHR ''/'' # t,
     join_step b [] @ ''RelWithDebInfo'' @ CHR ''/'' # t,
     join_step b [] @ ''MinSizeRel'' @ CHR ''/'' # t]"
    using assms(2,3,4) by (simp add: posix_initial_paths sep_free_start)
  then show ?thesis by (rule shape_length)
qed

lemma nt_length:
  assumes "os_path_join os = ntpath_join"
    "c \<noteq> []" "CHR ''/'' \<notin> set c" "nt_sep \<notin> set c" "take 1 (drop 1 c) \<noteq> '':''"
    "t \<noteq> []" "CHR ''/'' \<notin> set t" "nt_sep \<notin> set t" "take 1 (drop 1 t) \<noteq> '':''"
  shows "length (candidate_paths os b t c) = (if c \<in> set common_configs then 5 else 6)"
proof -
  obtain P where P: "\<And>c t. c \<noteq> [] \<Longrightarrow> CHR ''/'' \<notin> set c \<Longrightarrow> nt_sep \<notin> set c
        \<Longrightarrow> take 1 (drop 1 c) \<noteq> '':'' \<Longrightarrow> t \<noteq> [] \<Longrightarrow> CHR ''/'' \<notin> set t \<Longrightarrow> nt_sep \<notin> set t
        \<Longrightarrow> take 1 (drop 1 t) \<noteq> '':''
        \<Longrightarrow> ntpath_join b [c, t] = P @ c @ nt_sep # t \<and> ntpath_join b [t] = P @ t"
    using nt_join_shape[of b] by blast
  have lab: "ntpath_join b [l, t] = P @ l @ nt_sep # t"
    if "l \<in> set common_configs" for l
    using that P[of l t] assms(6,7,8,9) by (auto simp: common_configs_def nt_sep_def)
  have "initial_paths os b t c =
    [P @ c @ nt_sep # t, P @ t, P @ ''Debug'' @ nt_sep # t, P @ ''Release'' @ nt_sep # t,
     P @ ''RelWithDebInfo'' @ nt_sep # t, P @ ''MinSizeRel'' @ nt_sep # t]"
    using P[of c t] assms lab by (simp add: initial_paths_def common_configs_def)
  then show ?thesis by (rule shape_length)
qed

lemma candidate_paths_set: "set (candidate_paths os b t c) = set (initial_paths os b t c)"
  by (simp add: candidate_paths_first_seen first_seen_distinct)

lemma candidate_paths_distinct: "distinct (candidate_paths os b t c)"
  by (simp add: candidate_paths_first_seen first_seen_distinct)

lemma join_in_candidates:
  "os_path_join os b [t] \<in> set (candidate_paths os b t c)
   \<and> (\<forall>l \<in> set common_configs. os_path_join os b [l, t] \<in> set (candidate_paths os b t c))"
  by (simp add: candidate_paths_set initial_paths_def)

lemma posix_literal:
  assumes "b \<noteq> []" "\<not> endswith b ''/''" "c \<noteq> []" "CHR ''/'' \<notin> set c" "CHR ''/'' \<notin> set t"
  shows "posixpath_join b [c, t] = b @ ''/'' @ c @ ''/'' @ t \<and> posixpath_join b [t] = b @ ''/'' @ t"
proof -
  have "join_step b [] = b @ ''/''" using assms(1,2) by (simp add: join_step_def startswith_def)
  then show ?thesis using assms by (simp add: posix_join3 posix_join2 sep_free_start)
qed

lemmas eval_defs = get_executable_paths_def candidate_paths_def initial_paths_def posix_def
  posixpath_join_def join_step_def startswith_def endswith_def common_configs_def
  dict_fromkeys_def list_of_dict_def

lemmas nt_eval_defs = win32_def ntpath_join_def nt_join_step_def ntpath_splitdrive_def
  nt_add_sep_def nt_seps_def nt_sep_def upper_def upper_char_def str_find_def
  lower_def lower_char_def

lemma drive_target_collapses:
  "candidate_paths win32 ''build'' ''C:app'' ''Debug'' = [''C:app'']"
  by (simp add: eval_defs nt_eval_defs)

section \<open>The suffix step\<close>

lemma lower_exe: "lower (p @ ''.exe'') = lower p @ ''.exe''"
  by (simp add: lower_def lower_char_def)

lemma endswith_append: "endswith (p @ s) s"
  by (simp add: endswith_def)

lemma endswith_add_exe: "endswith (lower (add_exe p)) ''.exe''"
  by (simp add: add_exe_def lower_exe endswith_append)

lemma candidate_paths_nonempty: "candidate_paths os b t c \<noteq> []"
proof -
  have "set (candidate_paths os b t c) = set (initial_paths os b t c)"
    by (simp add: candidate_paths_first_seen first_seen_distinct)
  then show ?thesis by (auto simp: initial_paths_def)
qed

lemma get_executable_paths_nonempty: "get_executable_paths os b t c \<noteq> []"
  by (simp add: get_executable_paths_def Let_def candidate_paths_nonempty)

section \<open>Claims about \<open>get_executable_paths\<close>\<close>

text \<open>
  C1. For \<open>build_dir = "build"\<close>, \<open>target_name = "app"\<close>, \<open>config = "Release"\<close> on a platform
  that is not Windows (any \<open>sys.platform\<close> other than \<open>win32\<close>, with \<open>posixpath.join\<close>),
  \<open>get_executable_paths\<close> returns exactly the five paths below, in this order.
\<close>

theorem get_executable_paths_release_posix:
  "name \<noteq> ''win32'' \<Longrightarrow>
   get_executable_paths (posix\<lparr>sys_platform := name\<rparr>) ''build'' ''app'' ''Release'' =
   [''build/Release/app'', ''build/app'', ''build/Debug/app'',
    ''build/RelWithDebInfo/app'', ''build/MinSizeRel/app'']"
  by (simp add: eval_defs)

theorem get_executable_paths_release_posix_witness:
  "''linux'' \<noteq> ''win32'' \<and>
   get_executable_paths (posix\<lparr>sys_platform := ''linux''\<rparr>) ''build'' ''app'' ''Release'' =
   [''build/Release/app'', ''build/app'', ''build/Debug/app'',
    ''build/RelWithDebInfo/app'', ''build/MinSizeRel/app'']"
  using get_executable_paths_release_posix [of "''linux''"] by simp

text \<open>
  C2, as the spec states it: with \<open>config = "Debug"\<close> the list before the suffix step has
  exactly 4 entries. It has 5: the \<open>Debug\<close> subdirectory, the build directory itself and
  the three other conventional subdirectories.
\<close>

theorem debug_candidates_not_four:
  "candidate_paths posix ''build'' ''app'' ''Debug'' =
     [''build/Debug/app'', ''build/app'', ''build/Release/app'',
      ''build/RelWithDebInfo/app'', ''build/MinSizeRel/app'']
   \<and> length (candidate_paths posix ''build'' ''app'' ''Debug'') \<noteq> 4"
  by (simp add: eval_defs)

text \<open>
  C2, amended: with \<open>config = "Debug"\<close>, any \<open>build_dir\<close> and any non-empty \<open>target_name\<close>
  without a path separator, the list before the suffix step has exactly 5 entries, all
  distinct. This holds on both kinds of platform: with \<open>posixpath.join\<close>, whose only
  separator is the slash, and with \<open>ntpath.join\<close>, for which the backslash and the slash
  both separate and a name whose second character is a colon starts with a drive. Such
  a \<open>target_name\<close> is excluded on Windows as well: joining it drops what comes before
  it, and all six candidates are the same path (\<open>drive_target_collapses\<close>).
\<close>

theorem debug_candidates_five:
  "(os_path_join os = posixpath_join \<and> t \<noteq> [] \<and> CHR ''/'' \<notin> set t \<longrightarrow>
      distinct (candidate_paths os b t ''Debug'')
      \<and> length (candidate_paths os b t ''Debug'') = 5)
   \<and> (os_path_join os = ntpath_join \<and> t \<noteq> [] \<and> CHR ''/'' \<notin> set t \<and> nt_sep \<notin> set t
        \<and> take 1 (drop 1 t) \<noteq> '':'' \<longrightarrow>
      distinct (candidate_paths os b t ''Debug'')
      \<and> length (candidate_paths os b t ''Debug'') = 5)"
  using posix_length[of os "''Debug''" t b] nt_length[of os "''Debug''" t b]
  by (simp add: candidate_paths_distinct common_configs_def nt_sep_def)

theorem debug_candidates_five_witness:
  "os_path_join posix = posixpath_join \<and> ''app'' \<noteq> [] \<and> CHR ''/'' \<notin> set ''app''
   \<and> distinct (candidate_paths posix ''build'' ''app'' ''Debug'')
   \<and> length (candidate_paths posix ''build'' ''app'' ''Debug'') = 5
   \<and> os_path_join win32 = ntpath_join \<and> nt_sep \<notin> set ''app''
   \<and> take 1 (drop 1 ''app'') \<noteq> '':''
   \<and> distinct (candidate_paths win32 ''build'' ''app'' ''Debug'')
   \<and> length (candidate_paths win32 ''build'' ''app'' ''Debug'') = 5"
proof -
  have p: "os_path_join posix = posixpath_join \<and> ''app'' \<noteq> [] \<and> CHR ''/'' \<notin> set ''app''"
    by (simp add: posix_def)
  have w: "os_path_join win32 = ntpath_join \<and> ''app'' \<noteq> [] \<and> CHR ''/'' \<notin> set ''app''
      \<and> nt_sep \<notin> set ''app'' \<and> take 1 (drop 1 ''app'') \<noteq> '':''"
    by (simp add: win32_def nt_sep_def)
  note a = debug_candidates_five[of posix "''app''" "''build''", THEN conjunct1, THEN mp, OF p]
  note b = debug_candidates_five[of win32 "''app''" "''build''", THEN conjunct2, THEN mp, OF w]
  from p w a b show ?thesis by (simp only: simp_thms)
qed

text \<open>
  C3, as the spec states it: with \<open>config = "CustomStage"\<close> the list before the suffix step
  has exactly 5 entries. It has 6: nothing collapses.
\<close>

theorem custom_candidates_not_five:
  "candidate_paths posix ''build'' ''app'' ''CustomStage'' =
     [''build/CustomStage/app'', ''build/app'', ''build/Debug/app'', ''build/Release/app'',
      ''build/RelWithDebInfo/app'', ''build/MinSizeRel/app'']
   \<and> length (candidate_paths posix ''build'' ''app'' ''CustomStage'') \<noteq> 5"
  by (simp add: eval_defs)

text \<open>
  C3, amended: with \<open>config = "CustomStage"\<close>, any \<open>build_dir\<close> and any non-empty
  \<open>target_name\<close> without a path separator, the list before the suffix step has exactly
  6 entries, all distinct. This holds with \<open>posixpath.join\<close>, whose only separator is the
  slash, and with \<open>ntpath.join\<close>, for which the backslash and the slash both separate and
  a \<open>target_name\<close> whose second character is a colon, which starts with a drive, is
  excluded as well.
\<close>

theorem custom_candidates_six:
  "(os_path_join os = posixpath_join \<and> t \<noteq> [] \<and> CHR ''/'' \<notin> set t \<longrightarrow>
      distinct (candidate_paths os b t ''CustomStage'')
      \<and> length (candidate_paths os b t ''CustomStage'') = 6)
   \<and> (os_path_join os = ntpath_join \<and> t \<noteq> [] \<and> CHR ''/'' \<notin> set t \<and> nt_sep \<notin> set t
        \<and> take 1 (drop 1 t) \<noteq> '':'' \<longrightarrow>
      distinct (candidate_paths os b t ''CustomStage'')
      \<and> length (candidate_paths os b t ''CustomStage'') = 6)"
  using posix_length[of os "''CustomStage''" t b] nt_length[of os "''CustomStage''" t b]
  by (simp add: candidate_paths_distinct common_configs_def nt_sep_def)

theorem custom_candidates_six_witness:
  "os_path_join posix = posixpath_join \<and> ''app'' \<noteq> [] \<and> CHR ''/'' \<notin> set ''app''
   \<and> distinct (candidate_paths posix ''build'' ''app'' ''CustomStage'')
   \<and> length (candidate_paths posix ''build'' ''app'' ''CustomStage'') = 6
   \<and> os_path_join win32 = ntpath_join \<and> nt_sep \<notin> set ''app''
   \<and> take 1 (drop 1 ''app'') \<noteq> '':''
   \<and> distinct (candidate_paths win32 ''build'' ''app'' ''CustomStage'')
   \<and> length (candidate_paths win32 ''build'' ''app'' ''CustomStage'') = 6"
proof -
  have p: "os_path_join posix = posixpath_join \<and> ''app'' \<noteq> [] \<and> CHR ''/'' \<notin> set ''app''"
    by (simp add: posix_def)
  have w: "os_path_join win32 = ntpath_join \<and> ''app'' \<noteq> [] \<and> CHR ''/'' \<notin> set ''app''
      \<and> nt_sep \<notin> set ''app'' \<and> take 1 (drop 1 ''app'') \<noteq> '':''"
    by (simp add: win32_def nt_sep_def)
  note a = custom_candidates_six[of posix "''app''" "''build''", THEN conjunct1, THEN mp, OF p]
  note b = custom_candidates_six[of win32 "''app''" "''build''", THEN conjunct2, THEN mp, OF w]
  from p w a b show ?thesis by (simp only: simp_thms)
qed

text \<open>
  C4. For every platform, \<open>build_dir\<close>, \<open>target_name\<close> and \<open>config\<close>, the list before the
  suffix step has no duplicates and holds the same paths as the list built on lines 7 to
  9; it is what the spec's scan with a membership set produces; and it consists of
  exactly the first occurrences, in the order in which they occur: the elements at those
  positions \<open>i\<close> whose element does not occur before position \<open>i\<close>.
\<close>

theorem candidate_paths_dedup:
  "distinct (candidate_paths os b t c)
   \<and> set (candidate_paths os b t c) = set (initial_paths os b t c)
   \<and> candidate_paths os b t c = first_seen {} (initial_paths os b t c)
   \<and> candidate_paths os b t c =
       map (\<lambda>i. initial_paths os b t c ! i)
         (filter (\<lambda>i. initial_paths os b t c ! i \<notin> set (take i (initial_paths os b t c)))
            [0..<length (initial_paths os b t c)])"
proof -
  have d: "distinct (candidate_paths os b t c)"
    and s: "set (candidate_paths os b t c) = set (initial_paths os b t c)"
    by (simp_all add: candidate_paths_first_seen first_seen_distinct)
  have f: "candidate_paths os b t c = first_seen {} (initial_paths os b t c)"
    by (rule candidate_paths_first_seen)
  have i: "first_seen {} (initial_paths os b t c) =
       map (\<lambda>i. initial_paths os b t c ! i)
         (filter (\<lambda>i. initial_paths os b t c ! i \<notin> set (take i (initial_paths os b t c)))
            [0..<length (initial_paths os b t c)])"
    using first_seen_index[of "{}" "initial_paths os b t c"] by simp
  from d s f i show ?thesis by metis
qed

text \<open>
  C10, as the spec states it: for every \<open>build_dir\<close> and every non-empty \<open>target_name\<close> and
  \<open>config\<close> without path separators, the list before the suffix step contains
  \<open>build_dir/target_name\<close> and has 5 or 6 entries. With the empty \<open>build_dir\<close> the list
  holds \<open>app\<close> and \<open>Debug/app\<close>, not \<open>/app\<close> and \<open>/Debug/app\<close>; with a \<open>build_dir\<close> that
  ends in a separator no second separator is added; and on Windows the \<open>target_name\<close>
  \<open>C:app\<close>, which holds neither separator, leaves a single entry.
\<close>

theorem candidates_contents_counterexample:
  "candidate_paths posix [] ''app'' ''Debug'' =
     [''Debug/app'', ''app'', ''Release/app'', ''RelWithDebInfo/app'', ''MinSizeRel/app'']
   \<and> [] @ ''/'' @ ''app'' \<notin> set (candidate_paths posix [] ''app'' ''Debug'')
   \<and> ''build/'' @ ''/'' @ ''app'' \<notin> set (candidate_paths posix ''build/'' ''app'' ''Debug'')
   \<and> CHR ''/'' \<notin> set ''C:app'' \<and> nt_sep \<notin> set ''C:app''
   \<and> candidate_paths win32 ''build'' ''C:app'' ''Debug'' = [''C:app'']
   \<and> length (candidate_paths win32 ''build'' ''C:app'' ''Debug'') \<noteq> 5"
  by (simp add: eval_defs nt_eval_defs)

text \<open>
  C10, amended. For every \<open>build_dir\<close> and every \<open>target_name\<close> and \<open>config\<close> that are
  non-empty and hold no path separator (on Windows: neither separator, and no colon as
  second character), the list before the suffix step has exactly 5 entries when
  \<open>config\<close> is one of the four conventional labels and exactly 6 otherwise, so it is
  never empty; it contains \<open>os.path.join(build_dir, target_name)\<close> and the four paths
  \<open>os.path.join(build_dir, label, target_name)\<close>. These are the strings
  \<open>build_dir/target_name\<close> and \<open>build_dir/label/target_name\<close>, written with the
  separator of the platform (the slash, on Windows the backslash), whenever \<open>build_dir\<close>
  is non-empty and does not end in a separator (on Windows: whenever what follows the
  drive of \<open>build_dir\<close> is non-empty and \<open>build_dir\<close> does not end in a separator).
\<close>

theorem candidates_contents:
  "(os_path_join os = posixpath_join \<and> t \<noteq> [] \<and> CHR ''/'' \<notin> set t
      \<and> c \<noteq> [] \<and> CHR ''/'' \<notin> set c \<longrightarrow>
      length (candidate_paths os b t c) = (if c \<in> set common_configs then 5 else 6)
      \<and> candidate_paths os b t c \<noteq> []
      \<and> os_path_join os b [t] \<in> set (candidate_paths os b t c)
      \<and> (\<forall>l \<in> set common_configs. os_path_join os b [l, t] \<in> set (candidate_paths os b t c))
      \<and> (b \<noteq> [] \<and> \<not> endswith b ''/'' \<longrightarrow>
           b @ ''/'' @ t \<in> set (candidate_paths os b t c)
           \<and> (\<forall>l \<in> set common_configs.
                 b @ ''/'' @ l @ ''/'' @ t \<in> set (candidate_paths os b t c))))
   \<and> (os_path_join os = ntpath_join
        \<and> t \<noteq> [] \<and> CHR ''/'' \<notin> set t \<and> nt_sep \<notin> set t \<and> take 1 (drop 1 t) \<noteq> '':''
        \<and> c \<noteq> [] \<and> CHR ''/'' \<notin> set c \<and> nt_sep \<notin> set c \<and> take 1 (drop 1 c) \<noteq> '':'' \<longrightarrow>
      length (candidate_paths os b t c) = (if c \<in> set common_configs then 5 else 6)
      \<and> candidate_paths os b t c \<noteq> []
      \<and> os_path_join os b [t] \<in> set (candidate_paths os b t c)
      \<and> (\<forall>l \<in> set common_configs. os_path_join os b [l, t] \<in> set (candidate_paths os b t c))
      \<and> (snd (ntpath_splitdrive b) \<noteq> [] \<and> last b \<notin> set nt_seps \<longrightarrow>
           b @ [nt_sep] @ t \<in> set (candidate_paths os b t c)
           \<and> (\<forall>l \<in> set common_configs.
                 b @ [nt_sep] @ l @ [nt_sep] @ t \<in> set (candidate_paths os b t c))))"
proof -
  note mem = join_in_candidates[of os b t c]
  have ne: "candidate_paths os b t c \<noteq> []" by (rule candidate_paths_nonempty)
  have px: "os_path_join os = posixpath_join \<and> t \<noteq> [] \<and> CHR ''/'' \<notin> set t
      \<and> c \<noteq> [] \<and> CHR ''/'' \<notin> set c \<longrightarrow>
      length (candidate_paths os b t c) = (if c \<in> set common_configs then 5 else 6)
      \<and> candidate_paths os b t c \<noteq> []
      \<and> os_path_join os b [t] \<in> set (candidate_paths os b t c)
      \<and> (\<forall>l \<in> set common_configs. os_path_join os b [l, t] \<in> set (candidate_paths os b t c))
      \<and> (b \<noteq> [] \<and> \<not> endswith b ''/'' \<longrightarrow>
           b @ ''/'' @ t \<in> set (candidate_paths os b t c)
           \<and> (\<forall>l \<in> set common_configs.
                 b @ ''/'' @ l @ ''/'' @ t \<in> set (candidate_paths os b t c)))"
  proof (rule impI)
    assume h: "os_path_join os = posixpath_join \<and> t \<noteq> [] \<and> CHR ''/'' \<notin> set t
      \<and> c \<noteq> [] \<and> CHR ''/'' \<notin> set c"
    then have j: "os_path_join os = posixpath_join" and t: "CHR ''/'' \<notin> set t"
      and c: "c \<noteq> []" "CHR ''/'' \<notin> set c"
      by simp_all
    have len: "length (candidate_paths os b t c) = (if c \<in> set common_configs then 5 else 6)"
      using j c t by (rule posix_length)
    have lit: "b \<noteq> [] \<and> \<not> endswith b ''/'' \<longrightarrow>
           b @ ''/'' @ t \<in> set (candidate_paths os b t c)
           \<and> (\<forall>l \<in> set common_configs.
                 b @ ''/'' @ l @ ''/'' @ t \<in> set (candidate_paths os b t c))"
    proof (rule impI)
      assume b: "b \<noteq> [] \<and> \<not> endswith b ''/''"
      have 1: "posixpath_join b [t] = b @ ''/'' @ t"
        using posix_literal[of b "''Debug''" t] b t by simp
      have 2: "posixpath_join b [l, t] = b @ ''/'' @ l @ ''/'' @ t"
        if "l \<in> set common_configs" for l
        using posix_literal[of b l t] b t that by (auto simp: common_configs_def)
      show "b @ ''/'' @ t \<in> set (candidate_paths os b t c)
           \<and> (\<forall>l \<in> set common_configs.
                 b @ ''/'' @ l @ ''/'' @ t \<in> set (candidate_paths os b t c))"
        using mem 1 2 unfolding j by metis
    qed
    from len ne mem[THEN conjunct1] mem[THEN conjunct2] lit
    show "length (candidate_paths os b t c) = (if c \<in> set common_configs then 5 else 6)
      \<and> candidate_paths os b t c \<noteq> []
      \<and> os_path_join os b [t] \<in> set (candidate_paths os b t c)
      \<and> (\<forall>l \<in> set common_configs. os_path_join os b [l, t] \<in> set (candidate_paths os b t c))
      \<and> (b \<noteq> [] \<and> \<not> endswith b ''/'' \<longrightarrow>
           b @ ''/'' @ t \<in> set (candidate_paths os b t c)
           \<and> (\<forall>l \<in> set common_configs.
                 b @ ''/'' @ l @ ''/'' @ t \<in> set (candidate_paths os b t c)))"
      by (intro conjI)
  qed
  have nt: "os_path_join os = ntpath_join
        \<and> t \<noteq> [] \<and> CHR ''/'' \<notin> set t \<and> nt_sep \<notin> set t \<and> take 1 (drop 1 t) \<noteq> '':''
        \<and> c \<noteq> [] \<and> CHR ''/'' \<notin> set c \<and> nt_sep \<notin> set c \<and> take 1 (drop 1 c) \<noteq> '':'' \<longrightarrow>
      length (candidate_paths os b t c) = (if c \<in> set common_configs then 5 else 6)
      \<and> candidate_paths os b t c \<noteq> []
      \<and> os_path_join os b [t] \<in> set (candidate_paths os b t c)
      \<and> (\<forall>l \<in> set common_configs. os_path_join os b [l, t] \<in> set (candidate_paths os b t c))
      \<and> (snd (ntpath_splitdrive b) \<noteq> [] \<and> last b \<notin> set nt_seps \<longrightarrow>
           b @ [nt_sep] @ t \<in> set (candidate_paths os b t c)
           \<and> (\<forall>l \<in> set common_configs.
                 b @ [nt_sep] @ l @ [nt_sep] @ t \<in> set (candidate_paths os b t c)))"
  proof (rule impI)
    assume h: "os_path_join os = ntpath_join
        \<and> t \<noteq> [] \<and> CHR ''/'' \<notin> set t \<and> nt_sep \<notin> set t \<and> take 1 (drop 1 t) \<noteq> '':''
        \<and> c \<noteq> [] \<and> CHR ''/'' \<notin> set c \<and> nt_sep \<notin> set c \<and> take 1 (drop 1 c) \<noteq> '':''"
    then have j: "os_path_join os = ntpath_join"
      and t: "t \<noteq> []" "CHR ''/'' \<notin> set t" "nt_sep \<notin> set t" "take 1 (drop 1 t) \<noteq> '':''"
      and c: "c \<noteq> []" "CHR ''/'' \<notin> set c" "nt_sep \<notin> set c" "take 1 (drop 1 c) \<noteq> '':''"
      by simp_all
    have len: "length (candidate_paths os b t c) = (if c \<in> set common_configs then 5 else 6)"
      using j c t by (rule nt_length)
    have lit: "snd (ntpath_splitdrive b) \<noteq> [] \<and> last b \<notin> set nt_seps \<longrightarrow>
           b @ [nt_sep] @ t \<in> set (candidate_paths os b t c)
           \<and> (\<forall>l \<in> set common_configs.
                 b @ [nt_sep] @ l @ [nt_sep] @ t \<in> set (candidate_paths os b t c))"
    proof (rule impI)
      assume b: "snd (ntpath_splitdrive b) \<noteq> [] \<and> last b \<notin> set nt_seps"
      have 1: "ntpath_join b [t] = b @ [nt_sep] @ t"
        using nt_join_literal[of b "''Debug''" t] b t by (simp add: nt_sep_def)
      have 2: "ntpath_join b [l, t] = b @ [nt_sep] @ l @ [nt_sep] @ t"
        if "l \<in> set common_configs" for l
        using nt_join_literal[of b l t] b t that by (auto simp: common_configs_def nt_sep_def)
      show "b @ [nt_sep] @ t \<in> set (candidate_paths os b t c)
           \<and> (\<forall>l \<in> set common_configs.
                 b @ [nt_sep] @ l @ [nt_sep] @ t \<in> set (candidate_paths os b t c))"
        using mem 1 2 unfolding j by metis
    qed
    from len ne mem[THEN conjunct1] mem[THEN conjunct2] lit
    show "length (candidate_paths os b t c) = (if c \<in> set common_configs then 5 else 6)
      \<and> candidate_paths os b t c \<noteq> []
      \<and> os_path_join os b [t] \<in> set (candidate_paths os b t c)
      \<and> (\<forall>l \<in> set common_configs. os_path_join os b [l, t] \<in> set (candidate_paths os b t c))
      \<and> (snd (ntpath_splitdrive b) \<noteq> [] \<and> last b \<notin> set nt_seps \<longrightarrow>
           b @ [nt_sep] @ t \<in> set (candidate_paths os b t c)
           \<and> (\<forall>l \<in> set common_configs.
                 b @ [nt_sep] @ l @ [nt_sep] @ t \<in> set (candidate_paths os b t c)))"
      by (intro conjI)
  qed
  from px nt show ?thesis by (rule conjI)
qed

theorem candidates_contents_witness:
  "os_path_join posix = posixpath_join \<and> ''app'' \<noteq> [] \<and> CHR ''/'' \<notin> set ''app''
   \<and> ''Debug'' \<noteq> [] \<and> CHR ''/'' \<notin> set ''Debug''
   \<and> ''build'' \<noteq> [] \<and> \<not> endswith ''build'' ''/''
   \<and> length (candidate_paths posix ''build'' ''app'' ''Debug'') = 5
   \<and> ''build/app'' \<in> set (candidate_paths posix ''build'' ''app'' ''Debug'')
   \<and> list_all (\<lambda>l. ''build'' @ ''/'' @ l @ ''/'' @ ''app''
           \<in> set (candidate_paths posix ''build'' ''app'' ''Debug'')) common_configs
   \<and> os_path_join win32 = ntpath_join \<and> nt_sep \<notin> set ''app''
   \<and> take 1 (drop 1 ''app'') \<noteq> '':'' \<and> ''CustomStage'' \<noteq> []
   \<and> CHR ''/'' \<notin> set ''CustomStage'' \<and> nt_sep \<notin> set ''CustomStage''
   \<and> take 1 (drop 1 ''CustomStage'') \<noteq> '':''
   \<and> snd (ntpath_splitdrive ''build'') \<noteq> [] \<and> last ''build'' \<notin> set nt_seps
   \<and> length (candidate_paths win32 ''build'' ''app'' ''CustomStage'') = 6
   \<and> ''build'' @ [nt_sep] @ ''app'' \<in> set (candidate_paths win32 ''build'' ''app'' ''CustomStage'')
   \<and> list_all (\<lambda>l. ''build'' @ [nt_sep] @ l @ [nt_sep] @ ''app''
           \<in> set (candidate_paths win32 ''build'' ''app'' ''CustomStage'')) common_configs"
proof -
  have p: "os_path_join posix = posixpath_join \<and> ''app'' \<noteq> [] \<and> CHR ''/'' \<notin> set ''app''
      \<and> ''Debug'' \<noteq> [] \<and> CHR ''/'' \<notin> set ''Debug''"
    by (simp add: posix_def)
  have pb: "''build'' \<noteq> [] \<and> \<not> endswith ''build'' ''/''"
    by (simp add: endswith_def)
  have w: "os_path_join win32 = ntpath_join
      \<and> ''app'' \<noteq> [] \<and> CHR ''/'' \<notin> set ''app'' \<and> nt_sep \<notin> set ''app''
      \<and> take 1 (drop 1 ''app'') \<noteq> '':''
      \<and> ''CustomStage'' \<noteq> [] \<and> CHR ''/'' \<notin> set ''CustomStage'' \<and> nt_sep \<notin> set ''CustomStage''
      \<and> take 1 (drop 1 ''CustomStage'') \<noteq> '':''"
    by (simp add: win32_def nt_sep_def)
  have wb: "snd (ntpath_splitdrive ''build'') \<noteq> [] \<and> last ''build'' \<notin> set nt_seps"
    by (simp add: ntpath_splitdrive_def nt_seps_def nt_sep_def)
  note a = candidates_contents[of posix "''app''" "''Debug''" "''build''",
      THEN conjunct1, THEN mp, OF p]
  note a5 = a[THEN conjunct2, THEN conjunct2, THEN conjunct2, THEN conjunct2, THEN mp, OF pb]
  note b = candidates_contents[of win32 "''app''" "''CustomStage''" "''build''",
      THEN conjunct2, THEN mp, OF w]
  note b5 = b[THEN conjunct2, THEN conjunct2, THEN conjunct2, THEN conjunct2, THEN mp, OF wb]
  have a1: "length (candidate_paths posix ''build'' ''app'' ''Debug'') = 5"
    using a[THEN conjunct1] by (simp add: common_configs_def)
  have a2: "''build/app'' \<in> set (candidate_paths posix ''build'' ''app'' ''Debug'')"
    using a5[THEN conjunct1] by simp
  have a3: "list_all (\<lambda>l. ''build'' @ ''/'' @ l @ ''/'' @ ''app''
           \<in> set (candidate_paths posix ''build'' ''app'' ''Debug'')) common_configs"
    using a5[THEN conjunct2] by (simp only: list_all_iff)
  have b1: "length (candidate_paths win32 ''build'' ''app'' ''CustomStage'') = 6"
    using b[THEN conjunct1] by (simp add: common_configs_def)
  have b3: "list_all (\<lambda>l. ''build'' @ [nt_sep] @ l @ [nt_sep] @ ''app''
           \<in> set (candidate_paths win32 ''build'' ''app'' ''CustomStage'')) common_configs"
    using b5[THEN conjunct2] by (simp only: list_all_iff)
  from p pb w wb a1 a2 a3 b1 b5[THEN conjunct1] b3 show ?thesis by (simp only: simp_thms)
qed

text \<open>
  C6. On Windows (\<open>sys.platform == "win32"\<close>) the result is the deduplicated list with the
  suffix expression of line 12 applied to each element, so the suffix comes after the
  deduplication, and every path of the result ends in \<open>.exe\<close> once lowered. The suffix
  expression leaves a path alone when its lowered form ends in \<open>.exe\<close> and appends
  \<open>.exe\<close> otherwise. On any other platform the result is the deduplicated list itself.
  This holds whatever \<open>os.path.join\<close> is.
\<close>

theorem windows_suffix:
  "get_executable_paths os b t c =
     (if sys_platform os = ''win32'' then map add_exe (candidate_paths os b t c)
      else candidate_paths os b t c)
   \<and> (sys_platform os = ''win32'' \<longrightarrow>
        (\<forall>p \<in> set (get_executable_paths os b t c). endswith (lower p) ''.exe''))
   \<and> (\<forall>p. endswith (lower p) ''.exe'' \<longrightarrow> add_exe p = p)
   \<and> (\<forall>p. \<not> endswith (lower p) ''.exe'' \<longrightarrow> add_exe p = p @ ''.exe'')"
proof -
  have a: "get_executable_paths os b t c =
     (if sys_platform os = ''win32'' then map add_exe (candidate_paths os b t c)
      else candidate_paths os b t c)"
    by (simp add: get_executable_paths_def Let_def)
  have b: "sys_platform os = ''win32'' \<longrightarrow>
        (\<forall>p \<in> set (get_executable_paths os b t c). endswith (lower p) ''.exe'')"
    unfolding a using endswith_add_exe by auto
  have c: "\<forall>p. endswith (lower p) ''.exe'' \<longrightarrow> add_exe p = p"
    and d: "\<forall>p. \<not> endswith (lower p) ''.exe'' \<longrightarrow> add_exe p = p @ ''.exe''"
    unfolding add_exe_def by simp_all
  from a b c d show ?thesis by (intro conjI)
qed

theorem windows_suffix_witness:
  "sys_platform (posix\<lparr>sys_platform := ''win32''\<rparr>) = ''win32''
   \<and> list_all (\<lambda>p. endswith (lower p) ''.exe'')
         (get_executable_paths (posix\<lparr>sys_platform := ''win32''\<rparr>) ''build'' ''app'' ''Release'')
   \<and> endswith (lower ''app.EXE'') ''.exe'' \<and> add_exe ''app.EXE'' = ''app.EXE''
   \<and> \<not> endswith (lower ''app'') ''.exe'' \<and> add_exe ''app'' = ''app.exe''"
proof -
  let ?w = "posix\<lparr>sys_platform := ''win32''\<rparr>"
  have h: "sys_platform ?w = ''win32''"
    by simp
  have e1: "endswith (lower ''app.EXE'') ''.exe''" and e2: "\<not> endswith (lower ''app'') ''.exe''"
    by (simp_all add: endswith_def lower_def lower_char_def)
  note t = windows_suffix[of ?w "''build''" "''app''" "''Release''"]
  have all: "list_all (\<lambda>p. endswith (lower p) ''.exe'')
      (get_executable_paths ?w ''build'' ''app'' ''Release'')"
    using t[THEN conjunct2, THEN conjunct1, THEN mp, OF h] by (simp only: list_all_iff)
  have k1: "add_exe ''app.EXE'' = ''app.EXE''"
    using t[THEN conjunct2, THEN conjunct2, THEN conjunct1, THEN spec, THEN mp, OF e1] .
  have k2: "add_exe ''app'' = ''app.exe''"
    using t[THEN conjunct2, THEN conjunct2, THEN conjunct2, THEN spec, THEN mp, OF e2] by simp
  from h all e1 k1 e2 k2 show ?thesis by (intro conjI)
qed




section \<open>Claim about the choice of the executable\<close>

text \<open>
  C9. The candidate list is never empty, and the path \<open>run_cmake_build_and_execute\<close>
  chooses is the first candidate that exists, or candidate 0 when none exists, for
  every existence predicate. Whenever the build command completed, the last command of
  the run is that path, with no arguments.
\<close>

theorem exec_path_first_existing:
  "get_executable_paths os b t c \<noteq> []
   \<and> ((\<exists>i < length (get_executable_paths os b t c).
          exec_path os exists b t c = get_executable_paths os b t c ! i
          \<and> exists (get_executable_paths os b t c ! i)
          \<and> (\<forall>j < i. \<not> exists (get_executable_paths os b t c ! j)))
       \<or> ((\<forall>q \<in> set (get_executable_paths os b t c). \<not> exists q)
          \<and> exec_path os exists b t c = get_executable_paths os b t c ! 0))
   \<and> (\<forall>out. Run (build_cmd b t c) None (Completed out)
               \<in> set (snd (run_cmake_build_and_execute os exists env b t g c clean))
         \<longrightarrow> (\<exists>oc. last (snd (run_cmake_build_and_execute os exists env b t g c clean))
                    = Run [exec_path os exists b t c] None oc))"
proof -
  let ?ps = "get_executable_paths os b t c"
  have ne: "?ps \<noteq> []" by (rule get_executable_paths_nonempty)
  have sel: "(\<exists>i < length ?ps. exec_path os exists b t c = ?ps ! i \<and> exists (?ps ! i)
                \<and> (\<forall>j < i. \<not> exists (?ps ! j)))
       \<or> ((\<forall>q \<in> set ?ps. \<not> exists q) \<and> exec_path os exists b t c = ?ps ! 0)"
  proof (cases "find exists ?ps")
    case None
    then have "\<forall>q \<in> set ?ps. \<not> exists q" by (simp add: find_None_iff)
    moreover have "exec_path os exists b t c = ?ps ! 0"
      using None ne by (cases ?ps) (simp_all add: exec_path_def)
    ultimately show ?thesis by blast
  next
    case (Some p)
    then have "exec_path os exists b t c = p" by (simp add: exec_path_def)
    with Some show ?thesis by (auto simp: find_Some_iff)
  qed
  have run: "\<forall>out. Run (build_cmd b t c) None (Completed out)
               \<in> set (snd (run_cmake_build_and_execute os exists env b t g c clean))
         \<longrightarrow> (\<exists>oc. last (snd (run_cmake_build_and_execute os exists env b t g c clean))
                    = Run [exec_path os exists b t c] None oc)"
    by (auto simp: run_cmake_build_and_execute_def subprocess_run_def execute_step_def Let_def
          build_cmd_def cmake_cmd_def split: run_outcome.splits option.splits)
  from ne sel run show ?thesis by blast
qed

theorem exec_path_first_existing_witness:
  "exec_path posix (\<lambda>p. p = ''build/app'') ''build'' ''app'' ''Debug'' = ''build/app''
   \<and> get_executable_paths posix ''build'' ''app'' ''Debug'' ! 1 = ''build/app''
   \<and> Run (build_cmd ''build'' ''app'' ''Debug'') None (Completed [])
        \<in> set (snd (run_cmake_build_and_execute posix (\<lambda>p. p = ''build/app'')
                      (\<lambda>h cmd cwd. Completed []) ''build'' ''app'' None ''Debug'' False))
   \<and> last (snd (run_cmake_build_and_execute posix (\<lambda>p. p = ''build/app'')
                      (\<lambda>h cmd cwd. Completed []) ''build'' ''app'' None ''Debug'' False))
       = Run [''build/app''] None (Completed [])"
proof -
  have ps: "get_executable_paths posix ''build'' ''app'' ''Debug'' =
      [''build/Debug/app'', ''build/app'', ''build/Release/app'',
       ''build/RelWithDebInfo/app'', ''build/MinSizeRel/app'']"
    by (simp add: eval_defs)
  have ex: "exec_path posix (\<lambda>p. p = ''build/app'') ''build'' ''app'' ''Debug'' = ''build/app''"
    by (simp add: exec_path_def ps)
  have tr: "snd (run_cmake_build_and_execute posix (\<lambda>p. p = ''build/app'')
                      (\<lambda>h cmd cwd. Completed []) ''build'' ''app'' None ''Debug'' False)
      = [Makedirs ''build'', Run (cmake_cmd None) (Some ''build'') (Completed []),
         Run (build_cmd ''build'' ''app'' ''Debug'') None (Completed []),
         Run [''build/app''] None (Completed [])]"
    by (simp add: run_cmake_build_and_execute_def subprocess_run_def execute_step_def ex)
  have m: "Run (build_cmd ''build'' ''app'' ''Debug'') None (Completed [])
        \<in> set (snd (run_cmake_build_and_execute posix (\<lambda>p. p = ''build/app'')
                      (\<lambda>h cmd cwd. Completed []) ''build'' ''app'' None ''Debug'' False))"
    unfolding tr by simp
  from exec_path_first_existing[of posix "''build''" "''app''" "''Debug''" "\<lambda>p. p = ''build/app''"
        "\<lambda>h cmd cwd. Completed []" None False, THEN conjunct2, THEN conjunct2, THEN spec, THEN mp, OF m]
  obtain oc where "last (snd (run_cmake_build_and_execute posix (\<lambda>p. p = ''build/app'')
                      (\<lambda>h cmd cwd. Completed []) ''build'' ''app'' None ''Debug'' False))
       = Run [exec_path posix (\<lambda>p. p = ''build/app'') ''build'' ''app'' ''Debug''] None oc"
    by blast
  then have l: "last (snd (run_cmake_build_and_execute posix (\<lambda>p. p = ''build/app'')
                      (\<lambda>h cmd cwd. Completed []) ''build'' ''app'' None ''Debug'' False))
       = Run [''build/app''] None (Completed [])"
    unfolding tr ex by simp
  have i: "get_executable_paths posix ''build'' ''app'' ''Debug'' ! 1 = ''build/app''"
    unfolding ps by simp
  from ex i m l show ?thesis by (intro conjI)
qed

end
